theory Spec2Isabelle
  imports
    Complex_Main
    "HOL-Library.AList"
    "HOL-Library.Sublist"
    "HOL-Library.Multiset"
    "HOL-Library.Char_ord"
    "HOL-Library.List_Lexorder"
    "HOL-Library.Product_Lexorder"
begin

section \<open>JavaScript values and the built-ins the components call\<close>

text \<open>
  The front end is JavaScript: a field of \<open>form_data\<close> or of the form state holds any
  primitive value. Numbers are the integer-valued ones (ids, ages, limits); their decimal
  rendering below is the one \<open>String(n)\<close> gives for \<open>|n| < 10^21\<close>. Strings are lists of
  8-bit characters: case mapping, white space and comparison are those of JavaScript on
  ASCII text.
\<close>

datatype jsval = JUndefined | JNull | JBool bool | JNum int | JStr string

datatype error = TypeError

text \<open>\<open>ToBoolean\<close>: what \<open>&&\<close>, \<open>||\<close>, \<open>if\<close> and \<open>filter(email => email)\<close> test.\<close>

fun truthy :: "jsval \<Rightarrow> bool" where
  "truthy JUndefined = False"
| "truthy JNull = False"
| "truthy (JBool b) = b"
| "truthy (JNum n) = (n \<noteq> 0)"
| "truthy (JStr s) = (s \<noteq> [])"

definition toLowerChar :: "char \<Rightarrow> char" where
  "toLowerChar c =
     (let n = (of_char c :: nat) in if 65 \<le> n \<and> n \<le> 90 then char_of (n + 32) else c)"

definition toLowerCase :: "string \<Rightarrow> string" where
  "toLowerCase s = map toLowerChar s"

text \<open>White space as \<open>trim()\<close> and the regular expression class \<open>\\s\<close> see it (TAB, LF, VT,
  FF, CR, SP).\<close>

definition isSpace :: "char \<Rightarrow> bool" where
  "isSpace c = (let n = (of_char c :: nat) in (9 \<le> n \<and> n \<le> 13) \<or> n = 32)"

definition trim :: "string \<Rightarrow> string" where
  "trim s = rev (dropWhile isSpace (rev (dropWhile isSpace s)))"

text \<open>\<open>s.includes(q)\<close>: \<open>q\<close> occurs in \<open>s\<close> as a contiguous run of characters.\<close>

fun str_includes :: "string \<Rightarrow> string \<Rightarrow> bool" where
  "str_includes [] q = (q = [])"
| "str_includes (c # cs) q = (prefix q (c # cs) \<or> str_includes cs q)"

definition digitChar :: "nat \<Rightarrow> char" where
  "digitChar d = char_of (48 + d)"

fun showNat :: "nat \<Rightarrow> string" where
  "showNat n = (if n < 10 then [digitChar n] else showNat (n div 10) @ [digitChar (n mod 10)])"

declare showNat.simps [simp del]

definition showInt :: "int \<Rightarrow> string" where
  "showInt n = (if n < 0 then CHR ''-'' # showNat (nat (- n)) else showNat (nat n))"

text \<open>\<open>String(v)\<close>, which is also the conversion a template string, \<open>parseInt\<close> and
  \<open>RegExp.test\<close> apply to their argument.\<close>

fun String :: "jsval \<Rightarrow> string" where
  "String JUndefined = ''undefined''"
| "String JNull = ''null''"
| "String (JBool b) = (if b then ''true'' else ''false'')"
| "String (JNum n) = showInt n"
| "String (JStr s) = s"


text \<open>
  \<open>parseInt(v)\<close> with no radix: \<open>String(v)\<close>, leading white space skipped, an optional sign,
  base 16 after \<open>0x\<close> or \<open>0X\<close> and base 10 otherwise, then the longest run of digits.
  \<open>None\<close> is \<open>NaN\<close> (no digit was read).
\<close>

definition digitVal :: "char \<Rightarrow> nat" where
  "digitVal c =
     (let n = (of_char c :: nat) in
      if 48 \<le> n \<and> n \<le> 57 then n - 48
      else if 97 \<le> n \<and> n \<le> 102 then n - 87
      else if 65 \<le> n \<and> n \<le> 70 then n - 55
      else 16)"

definition isDigitIn :: "nat \<Rightarrow> char \<Rightarrow> bool" where
  "isDigitIn radix c = (digitVal c < radix)"

definition digitsValue :: "nat \<Rightarrow> string \<Rightarrow> nat" where
  "digitsValue radix ds = foldl (\<lambda>acc c. acc * radix + digitVal c) 0 ds"

definition parseDigits :: "nat \<Rightarrow> string \<Rightarrow> nat option" where
  "parseDigits radix s =
     (let ds = takeWhile (isDigitIn radix) s in
      if ds = [] then None else Some (digitsValue radix ds))"

definition parseUnsigned :: "string \<Rightarrow> nat option" where
  "parseUnsigned s =
     (if take 2 s = ''0x'' \<or> take 2 s = ''0X'' then parseDigits 16 (drop 2 s)
      else parseDigits 10 s)"

definition parseInt :: "jsval \<Rightarrow> int option" where
  "parseInt v =
     (case dropWhile isSpace (String v) of
        [] \<Rightarrow> None
      | c # cs \<Rightarrow>
          if c = CHR ''-'' then map_option (\<lambda>n. - int n) (parseUnsigned cs)
          else if c = CHR ''+'' then map_option int (parseUnsigned cs)
          else map_option int (parseUnsigned (c # cs)))"

text \<open>\<open>xs.slice(start, end)\<close>: a negative index counts from the end, and both are clamped
  to the array.\<close>

definition sliceIndex :: "nat \<Rightarrow> int \<Rightarrow> nat" where
  "sliceIndex len i = (if i < 0 then nat (max (int len + i) 0) else min (nat i) len)"

definition slice :: "'a list \<Rightarrow> int \<Rightarrow> int \<Rightarrow> 'a list" where
  "slice xs start stop =
     (let k = sliceIndex (length xs) start; final = sliceIndex (length xs) stop
      in take (final - k) (drop k xs))"

text \<open>\<open>xs.filter(f)\<close> with a callback that may throw: the elements are visited from the
  left and the first exception ends the call.\<close>

fun filterE :: "('a \<Rightarrow> error + bool) \<Rightarrow> 'a list \<Rightarrow> error + 'a list" where
  "filterE f [] = Inr []"
| "filterE f (x # xs) =
     (case f x of
        Inl e \<Rightarrow> Inl e
      | Inr b \<Rightarrow>
          (case filterE f xs of
             Inl e \<Rightarrow> Inl e
           | Inr ys \<Rightarrow> Inr (if b then x # ys else ys)))"

text \<open>
  \<open>xs.sort(cmp)\<close>. ECMAScript fixes the result, not the algorithm: the sort is stable, and
  every element of an array of two or more takes part in a call of \<open>cmp\<close>. The model is the
  stable insertion sort, an element going in front of the first one it does not compare
  greater than; an exception of \<open>cmp\<close> ends the call. \<open>sortWith_sorted\<close>,
  \<open>sortWith_stable\<close> and \<open>sortWith_mset\<close> below are the three properties that determine
  the result of any stable sort.
\<close>

fun insertWith :: "('a \<Rightarrow> 'a \<Rightarrow> error + int) \<Rightarrow> 'a \<Rightarrow> 'a list \<Rightarrow> error + 'a list" where
  "insertWith cmp x [] = Inr [x]"
| "insertWith cmp x (y # ys) =
     (case cmp x y of
        Inl e \<Rightarrow> Inl e
      | Inr c \<Rightarrow>
          if c \<le> 0 then Inr (x # y # ys)
          else (case insertWith cmp x ys of Inl e \<Rightarrow> Inl e | Inr zs \<Rightarrow> Inr (y # zs)))"

fun sortWith :: "('a \<Rightarrow> 'a \<Rightarrow> error + int) \<Rightarrow> 'a list \<Rightarrow> error + 'a list" where
  "sortWith cmp [] = Inr []"
| "sortWith cmp (x # xs) =
     (case sortWith cmp xs of Inl e \<Rightarrow> Inl e | Inr ys \<Rightarrow> insertWith cmp x ys)"

section \<open>SubmissionsList: search, sort and pagination in the browser\<close>

text \<open>
  A submission as the list component reads it. \<open>form_data\<close> is \<open>None\<close> when the property is
  \<open>undefined\<close> or \<open>null\<close> (the list reads \<open>sub.form_data || {}\<close>); a missing field of \<open>form_data\<close> is
  \<open>JUndefined\<close>. \<open>submitted_at\<close> is the number \<open>new Date(sub.submitted_at).getTime()\<close>,
  the milliseconds of a date that parses.
\<close>

record form_data =
  name :: jsval
  email :: jsval
  age :: jsval
  gender :: jsval

record submission =
  sub_id :: int
  form_data :: "form_data option"
  submitted_at :: int

definition emptyData :: form_data where
  "emptyData = \<lparr>name = JUndefined, email = JUndefined, age = JUndefined, gender = JUndefined\<rparr>"

definition dataOf :: "submission \<Rightarrow> form_data" where
  "dataOf sub = (case form_data sub of None \<Rightarrow> emptyData | Some d \<Rightarrow> d)"

text \<open>\<open>v && v.toLowerCase().includes(query)\<close>: a falsy \<open>v\<close> ends the conjunction; a truthy
  value that is not a string has no \<open>toLowerCase\<close> method, and the call throws.\<close>

definition fieldIncludes :: "jsval \<Rightarrow> string \<Rightarrow> error + bool" where
  "fieldIncludes v query =
     (if \<not> truthy v then Inr False
      else case v of
             JStr s \<Rightarrow> Inr (str_includes (toLowerCase s) query)
           | _ \<Rightarrow> Inl TypeError)"

text \<open>\<open>a || b\<close> on the outcomes: \<open>b\<close> is evaluated only when \<open>a\<close> is falsy.\<close>

definition orElse :: "error + bool \<Rightarrow> error + bool \<Rightarrow> error + bool" where
  "orElse a b = (case a of Inl e \<Rightarrow> Inl e | Inr x \<Rightarrow> if x then Inr True else b)"

text \<open>The callback of \<open>result.filter\<close> in the effect; \<open>query\<close> is the lower-cased search
  text.\<close>

definition matchesQuery :: "string \<Rightarrow> submission \<Rightarrow> error + bool" where
  "matchesQuery query sub =
     (let data = dataOf sub in
      orElse (fieldIncludes (name data) query)
     (orElse (fieldIncludes (email data) query)
     (orElse (Inr (truthy (age data) \<and> str_includes (String (age data)) query))
     (orElse (fieldIncludes (gender data) query)
             (Inr (str_includes (String (JNum (sub_id sub))) query))))))"


text \<open>The last three lines of the comparator: \<open>-1\<close>, \<open>1\<close> or \<open>0\<close>. Every order other than
  \<open>'asc'\<close> sorts downwards.\<close>

definition compareValues :: "'a::linorder \<Rightarrow> 'a \<Rightarrow> string \<Rightarrow> int" where
  "compareValues aValue bValue order =
     (if aValue < bValue then (if order = ''asc'' then - 1 else 1)
      else if aValue > bValue then (if order = ''asc'' then 1 else - 1)
      else 0)"

text \<open>\<open>(v || '').toLowerCase()\<close>\<close>

definition lowerOrEmpty :: "jsval \<Rightarrow> error + string" where
  "lowerOrEmpty v =
     (if \<not> truthy v then Inr (toLowerCase [])
      else case v of JStr s \<Rightarrow> Inr (toLowerCase s) | _ \<Rightarrow> Inl TypeError)"

text \<open>\<open>parseInt(v) || 0\<close>\<close>

definition intOrZero :: "jsval \<Rightarrow> int" where
  "intOrZero v = (case parseInt v of None \<Rightarrow> 0 | Some n \<Rightarrow> if n \<noteq> 0 then n else 0)"

definition compareStrings :: "error + string \<Rightarrow> error + string \<Rightarrow> string \<Rightarrow> error + int" where
  "compareStrings a b order =
     (case a of
        Inl e \<Rightarrow> Inl e
      | Inr aValue \<Rightarrow>
          (case b of Inl e \<Rightarrow> Inl e | Inr bValue \<Rightarrow> Inr (compareValues aValue bValue order)))"

text \<open>The callback of \<open>sorted.sort\<close>: the \<open>switch\<close> on the sort field, then the comparison.\<close>

definition comparator :: "string \<Rightarrow> string \<Rightarrow> submission \<Rightarrow> submission \<Rightarrow> error + int" where
  "comparator field order a b =
     (let formDataA = dataOf a; formDataB = dataOf b in
      if field = ''id'' then Inr (compareValues (sub_id a) (sub_id b) order)
      else if field = ''submitted_at'' then
        Inr (compareValues (submitted_at a) (submitted_at b) order)
      else if field = ''name'' then
        compareStrings (lowerOrEmpty (name formDataA)) (lowerOrEmpty (name formDataB)) order
      else if field = ''email'' then
        compareStrings (lowerOrEmpty (email formDataA)) (lowerOrEmpty (email formDataB)) order
      else if field = ''age'' then
        Inr (compareValues (intOrZero (age formDataA)) (intOrZero (age formDataB)) order)
      else if field = ''gender'' then
        compareStrings (lowerOrEmpty (gender formDataA)) (lowerOrEmpty (gender formDataB)) order
      else Inr (compareValues (sub_id a) (sub_id b) order))"

definition sortSubmissions :: "string \<Rightarrow> string \<Rightarrow> submission list \<Rightarrow> error + submission list" where
  "sortSubmissions field order data = sortWith (comparator field order) data"

text \<open>The state of the list component, with the values of its \<open>useState\<close> calls.\<close>

record list_state =
  submissions :: "submission list"
  filteredSubmissions :: "submission list"
  total :: nat
  searchQuery :: string
  page :: int
  pageSize :: int
  sortBy :: string
  sortOrder :: string

definition initialList :: list_state where
  "initialList =
     \<lparr>submissions = [], filteredSubmissions = [], total = 0, searchQuery = [],
      page = 0, pageSize = 10, sortBy = ''submitted_at'', sortOrder = ''desc''\<rparr>"

text \<open>The search filter of the effect: skipped when the trimmed search text is empty,
  otherwise applied with the lower-cased (untrimmed) text.\<close>

definition searchFilter :: "string \<Rightarrow> submission list \<Rightarrow> error + submission list" where
  "searchFilter query subs =
     (if trim query \<noteq> [] then filterE (matchesQuery (toLowerCase query)) subs else Inr subs)"

text \<open>The effect "Apply filters and search": filter, sort, slice the page out, and store the
  page and the number of records that passed the filter.\<close>

definition applyFilters :: "list_state \<Rightarrow> error + list_state" where
  "applyFilters st =
     (case searchFilter (searchQuery st) (submissions st) of
        Inl e \<Rightarrow> Inl e
      | Inr result \<Rightarrow>
          (case sortSubmissions (sortBy st) (sortOrder st) result of
             Inl e \<Rightarrow> Inl e
           | Inr sorted_result \<Rightarrow>
               (let startIdx = page st * pageSize st;
                    paginatedResult = slice sorted_result startIdx (startIdx + pageSize st)
                in Inr (st\<lparr>filteredSubmissions := paginatedResult,
                            total := length sorted_result\<rparr>))))"

section \<open>formService: the query parameters of the list and search requests\<close>

text \<open>The \<open>options\<close> object; \<open>None\<close> is a property left out. The parameters are the values
  handed to \<open>params.append\<close>, in the order of the calls.\<close>

record list_options =
  skip :: "int option"
  limit :: "int option"
  sort_by :: "string option"
  order_opt :: "string option"
  is_duplicate :: "bool option"
  query :: "string option"

text \<open>\<open>n || d\<close> for a number that may be missing.\<close>

definition orDefault :: "int option \<Rightarrow> int \<Rightarrow> int" where
  "orDefault v d = (case v of None \<Rightarrow> d | Some n \<Rightarrow> if n \<noteq> 0 then n else d)"

definition appendIfSet :: "string \<Rightarrow> string option \<Rightarrow> (string \<times> jsval) list" where
  "appendIfSet key v = (case v of None \<Rightarrow> [] | Some s \<Rightarrow> if s \<noteq> [] then [(key, JStr s)] else [])"

definition appendIfDefined :: "string \<Rightarrow> bool option \<Rightarrow> (string \<times> jsval) list" where
  "appendIfDefined key v = (case v of None \<Rightarrow> [] | Some b \<Rightarrow> [(key, JBool b)])"

definition getSubmissions :: "list_options \<Rightarrow> (string \<times> jsval) list" where
  "getSubmissions opts =
     [(''skip'', JNum (orDefault (skip opts) 0)),
      (''limit'', JNum (min (orDefault (limit opts) 50) 1000))]
     @ appendIfSet ''sort_by'' (sort_by opts)
     @ appendIfSet ''order'' (order_opt opts)
     @ appendIfDefined ''is_duplicate'' (is_duplicate opts)"

definition searchSubmissions :: "list_options \<Rightarrow> (string \<times> jsval) list" where
  "searchSubmissions opts =
     appendIfSet ''query'' (query opts)
     @ [(''skip'', JNum (orDefault (skip opts) 0)),
        (''limit'', JNum (min (orDefault (limit opts) 50) 1000))]
     @ appendIfDefined ''is_duplicate'' (is_duplicate opts)"


section \<open>DynamicForm: validation and submission\<close>

text \<open>A field of the schema. \<open>None\<close> is a property the schema leaves out.\<close>

record fieldConfig =
  ftype :: string
  required :: bool
  minLength :: "nat option"
  maxLength :: "nat option"
  fmin :: "int option"
  fmax :: "int option"
  options :: "string list option"

text \<open>The messages \<open>validateForm\<close> pushes, one constructor for each text.\<close>

datatype message =
    Required string
  | InvalidEmail
  | EmailExists
  | TooShort nat
  | TooLong nat
  | NotANumber
  | BelowMin int
  | AboveMax int
  | InvalidDate
  | InvalidSelection

record form_state =
  formData :: "string \<rightharpoonup> jsval"
  errors :: "(string \<times> message list) list"
  loading :: bool
  submitMessage :: string
  submitError :: string
  existingEmails :: "jsval list"

text \<open>\<open>[...new Set(emails)]\<close>: the first occurrence of each value, in order.\<close>

fun uniqInto :: "'a list \<Rightarrow> 'a list \<Rightarrow> 'a list" where
  "uniqInto seen [] = seen"
| "uniqInto seen (x # xs) = uniqInto (if x \<in> set seen then seen else seen @ [x]) xs"

text \<open>\<open>loadExistingEmails\<close>, given the submissions of the response. \<open>s.form_data.email\<close>
  throws on a submission without \<open>form_data\<close>; the \<open>catch\<close> logs it and the state stays.\<close>

definition loadExistingEmails :: "submission list \<Rightarrow> form_state \<Rightarrow> form_state" where
  "loadExistingEmails response st =
     (if \<exists>s \<in> set response. form_data s = None then st
      else st\<lparr>existingEmails :=
                uniqInto [] (filter truthy (map (\<lambda>s. email (dataOf s)) response))\<rparr>)"

definition isEmpty :: "jsval \<Rightarrow> bool" where
  "isEmpty v = (v = JStr [] \<or> v = JNull \<or> v = JUndefined)"

text \<open>\<open>/^[^\\s@]+@[^\\s@]+\\.[^\\s@]+$/\<close>: no white space, one \<open>@\<close> with text before it, and
  after it a dot that is neither the first nor the last character.\<close>

definition plainChar :: "char \<Rightarrow> bool" where
  "plainChar c = (\<not> isSpace c \<and> c \<noteq> CHR ''@'')"

definition emailRegex :: "string \<Rightarrow> bool" where
  "emailRegex s =
     (takeWhile plainChar s \<noteq> [] \<and>
      (case dropWhile plainChar s of
         [] \<Rightarrow> False
       | c # d \<Rightarrow> c = CHR ''@'' \<and> list_all plainChar d \<and> CHR ''.'' \<in> set (butlast (tl d))))"

definition isDigit :: "char \<Rightarrow> bool" where
  "isDigit c = (let n = (of_char c :: nat) in 48 \<le> n \<and> n \<le> 57)"

text \<open>\<open>/^\\d{4}-\\d{2}-\\d{2}$/\<close>\<close>

definition dateRegex :: "string \<Rightarrow> bool" where
  "dateRegex s =
     (length s = 10 \<and> list_all isDigit (take 4 s) \<and> s ! 4 = CHR ''-'' \<and>
      list_all isDigit (take 2 (drop 5 s)) \<and> s ! 7 = CHR ''-'' \<and>
      list_all isDigit (drop 8 s))"

text \<open>\<open>value.length\<close>: a string has one; on a number or a boolean it is \<open>undefined\<close>, and a
  comparison with \<open>undefined\<close> is false.\<close>

definition lengthBelow :: "jsval \<Rightarrow> nat \<Rightarrow> bool" where
  "lengthBelow v n = (case v of JStr s \<Rightarrow> length s < n | _ \<Rightarrow> False)"

definition lengthAbove :: "jsval \<Rightarrow> nat \<Rightarrow> bool" where
  "lengthAbove v n = (case v of JStr s \<Rightarrow> length s > n | _ \<Rightarrow> False)"

definition emailErrors :: "jsval list \<Rightarrow> jsval \<Rightarrow> message list" where
  "emailErrors existing v =
     (if \<not> emailRegex (String v) then [InvalidEmail] else [])
     @ (if v \<in> set existing then [EmailExists] else [])"

definition stringErrors :: "fieldConfig \<Rightarrow> jsval \<Rightarrow> message list" where
  "stringErrors cfg v =
     (case minLength cfg of
        None \<Rightarrow> []
      | Some n \<Rightarrow> if n \<noteq> 0 \<and> lengthBelow v n then [TooShort n] else [])
     @ (case maxLength cfg of
          None \<Rightarrow> []
        | Some n \<Rightarrow> if n \<noteq> 0 \<and> lengthAbove v n then [TooLong n] else [])"

text \<open>The check of a number field. \<open>parseFloat\<close> reads a floating-point number and is a
  parameter: \<open>None\<close> is \<open>NaN\<close>, \<open>Some x\<close> the value read.\<close>

definition numberErrors :: "(jsval \<Rightarrow> real option) \<Rightarrow> fieldConfig \<Rightarrow> jsval \<Rightarrow> message list" where
  "numberErrors parseFloat cfg v =
     (case parseFloat v of
        None \<Rightarrow> [NotANumber]
      | Some numValue \<Rightarrow>
          (case fmin cfg of
             None \<Rightarrow> []
           | Some m \<Rightarrow> if numValue < real_of_int m then [BelowMin m] else [])
          @ (case fmax cfg of
               None \<Rightarrow> []
             | Some m \<Rightarrow> if numValue > real_of_int m then [AboveMax m] else []))"

definition dropdownErrors :: "fieldConfig \<Rightarrow> jsval \<Rightarrow> message list" where
  "dropdownErrors cfg v =
     (case options cfg of
        None \<Rightarrow> [InvalidSelection]
      | Some opts \<Rightarrow> if v \<in> set (map JStr opts) then [] else [InvalidSelection])"

text \<open>The body of the \<open>forEach\<close> in \<open>validateForm\<close> for one field: the messages of the
  field. An empty value is checked for \<open>required\<close> only.\<close>

definition fieldErrors ::
  "(jsval \<Rightarrow> real option) \<Rightarrow> jsval list \<Rightarrow> string \<Rightarrow> fieldConfig \<Rightarrow> jsval \<Rightarrow> message list" where
  "fieldErrors parseFloat existing fieldName cfg v =
     (let req = (if required cfg \<and> isEmpty v then [Required fieldName] else []) in
      if isEmpty v then req
      else req
        @ (if ftype cfg = ''email'' then emailErrors existing v else [])
        @ (if ftype cfg = ''string'' \<or> ftype cfg = ''text'' then stringErrors cfg v else [])
        @ (if ftype cfg = ''number'' then numberErrors parseFloat cfg v else [])
        @ (if ftype cfg = ''date'' then (if \<not> dateRegex (String v) then [InvalidDate] else [])
           else [])
        @ (if ftype cfg = ''dropdown'' then dropdownErrors cfg v else []))"

definition valueOf :: "(string \<rightharpoonup> jsval) \<Rightarrow> string \<Rightarrow> jsval" where
  "valueOf fd fieldName = (case fd fieldName of None \<Rightarrow> JUndefined | Some v \<Rightarrow> v)"

definition checkField ::
  "(jsval \<Rightarrow> real option) \<Rightarrow> form_state \<Rightarrow> (string \<times> message list) list \<Rightarrow>
   string \<times> fieldConfig \<Rightarrow> (string \<times> message list) list" where
  "checkField parseFloat st newErrors entry =
     (let fe = fieldErrors parseFloat (existingEmails st) (fst entry) (snd entry)
                 (valueOf (formData st) (fst entry))
      in if fe \<noteq> [] then AList.update (fst entry) fe newErrors else newErrors)"

text \<open>\<open>validateForm\<close>: the schema is the list of its entries in the order of
  \<open>Object.entries\<close>. The result is the state after \<open>setErrors(newErrors)\<close> and the value
  returned.\<close>

definition validateForm ::
  "(jsval \<Rightarrow> real option) \<Rightarrow> (string \<times> fieldConfig) list \<Rightarrow> form_state \<Rightarrow> form_state \<times> bool" where
  "validateForm parseFloat schema st =
     (let newErrors = foldl (checkField parseFloat st) [] schema
      in (st\<lparr>errors := newErrors\<rparr>, newErrors = []))"

text \<open>\<open>handleSubmit\<close> up to the request: the state it leaves, and the form data posted by
  \<open>formService.submitForm\<close> when a request is made.\<close>

definition handleSubmit ::
  "(jsval \<Rightarrow> real option) \<Rightarrow> (string \<times> fieldConfig) list \<Rightarrow> form_state \<Rightarrow>
   form_state \<times> (string \<rightharpoonup> jsval) option" where
  "handleSubmit parseFloat schema st =
     (let cleared = st\<lparr>submitMessage := [], submitError := []\<rparr>;
          validated = validateForm parseFloat schema cleared
      in if \<not> snd validated then (fst validated, None)
         else ((fst validated)\<lparr>loading := True\<rparr>, Some (formData (fst validated))))"

text \<open>The schema of \<open>App.jsx\<close>.\<close>

definition emailField :: fieldConfig where
  "emailField =
     \<lparr>ftype = ''email'', required = True, minLength = None, maxLength = None,
      fmin = None, fmax = None, options = None\<rparr>"

definition formSchema :: "(string \<times> fieldConfig) list" where
  "formSchema =
     [(''name'', \<lparr>ftype = ''string'', required = True, minLength = Some 3, maxLength = Some 50,
                  fmin = None, fmax = None, options = None\<rparr>),
      (''email'', emailField),
      (''age'', \<lparr>ftype = ''number'', required = True, minLength = None, maxLength = None,
                 fmin = Some 0, fmax = Some 120, options = None\<rparr>),
      (''gender'', \<lparr>ftype = ''dropdown'', required = True, minLength = None, maxLength = None,
                    fmin = None, fmax = None, options = Some [''male'', ''female'', ''other'']\<rparr>)]"


section \<open>Notions of the specification\<close>






text \<open>A field that is a string or falsy: the values on which \<open>toLowerCase\<close> is either
  defined or not called.\<close>

definition stringOrFalsy :: "jsval \<Rightarrow> bool" where
  "stringOrFalsy v = (case v of JStr s \<Rightarrow> True | _ \<Rightarrow> \<not> truthy v)"


text \<open>The coerced sort keys of the specification: the age parsed as an integer, 0 when the
  parse fails; a text field lower-cased, the empty string when it is missing.\<close>

definition coercedAge :: "jsval \<Rightarrow> int" where
  "coercedAge v = (case parseInt v of None \<Rightarrow> 0 | Some n \<Rightarrow> n)"

definition coercedText :: "jsval \<Rightarrow> string" where
  "coercedText v = (case v of JStr s \<Rightarrow> toLowerCase s | _ \<Rightarrow> [])"

definition textField :: "string \<Rightarrow> submission \<Rightarrow> jsval" where
  "textField field sub =
     (if field = ''name'' then name (dataOf sub)
      else if field = ''email'' then email (dataOf sub)
      else gender (dataOf sub))"

definition isTextField :: "string \<Rightarrow> bool" where
  "isTextField field = (field = ''name'' \<or> field = ''email'' \<or> field = ''gender'')"

text \<open>The key a sort field orders the records by, as a pair (number, text), and the records
  whose key the comparator can read.\<close>

definition sortKey :: "string \<Rightarrow> submission \<Rightarrow> int \<times> string" where
  "sortKey field sub =
     (if isTextField field then (0, coercedText (textField field sub))
      else if field = ''age'' then (coercedAge (age (dataOf sub)), [])
      else if field = ''submitted_at'' then (submitted_at sub, [])
      else (sub_id sub, []))"

definition keyReadable :: "string \<Rightarrow> submission \<Rightarrow> bool" where
  "keyReadable field sub = (if isTextField field then stringOrFalsy (textField field sub) else True)"


text \<open>A comparator that reads a key off each record, fails on the records it cannot read,
  and compares the keys.\<close>

definition keyed ::
  "('a \<Rightarrow> 'a \<Rightarrow> error + int) \<Rightarrow> ('a \<Rightarrow> bool) \<Rightarrow> ('a \<Rightarrow> 'k::linorder) \<Rightarrow> string \<Rightarrow> bool" where
  "keyed c ok k order =
     (\<forall>x y. c x y = (if ok x \<and> ok y then Inr (compareValues (k x) (k y) order)
                      else Inl TypeError))"

text \<open>Two e-mails that differ only in case or surrounding white space.\<close>

definition sameIdentity :: "string \<Rightarrow> string \<Rightarrow> bool" where
  "sameIdentity a b = (toLowerCase (trim a) = toLowerCase (trim b))"

text \<open>What the page and the total of a state are, for comparing two runs of the effect.\<close>

definition shown :: "error + list_state \<Rightarrow> error + (submission list \<times> nat)" where
  "shown r = (case r of Inl e \<Rightarrow> Inl e | Inr st \<Rightarrow> Inr (filteredSubmissions st, total st))"

section \<open>Example records\<close>

definition person :: "int \<Rightarrow> jsval \<Rightarrow> jsval \<Rightarrow> jsval \<Rightarrow> jsval \<Rightarrow> int \<Rightarrow> submission" where
  "person i n e a g t =
     \<lparr>sub_id = i, form_data = Some \<lparr>name = n, email = e, age = a, gender = g\<rparr>,
      submitted_at = t\<rparr>"

definition ann :: submission where
  "ann = person 1 (JStr ''Ann'') (JStr ''Ann@X.com'') (JNum 30) (JStr ''female'') 100"

definition bob :: submission where
  "bob = person 2 (JStr ''Bob'') (JStr ''bob@x.com'') (JNum 40) (JStr ''male'') 100"

definition cy :: submission where
  "cy = \<lparr>sub_id = 3, form_data = None, submitted_at = 200\<rparr>"

definition baby :: submission where
  "baby = person 4 (JStr ''Dan'') (JStr ''dan@x.com'') (JNum 0) (JStr ''male'') 300"




text \<open>A \<open>parseFloat\<close> for the examples, which hold whole numbers only.\<close>

definition readNumber :: "jsval \<Rightarrow> real option" where
  "readNumber v = (case v of JNum n \<Rightarrow> Some (real_of_int n) | JStr s \<Rightarrow> map_option real_of_int (parseInt (JStr s)) | _ \<Rightarrow> None)"

definition emptyForm :: form_state where
  "emptyForm =
     \<lparr>formData = Map.empty, errors = [], loading = False, submitMessage = [],
      submitError = [], existingEmails = []\<rparr>"

text \<open>The list after a search for \<open>x.com\<close>, on its second page of two.\<close>

definition secondPage :: list_state where
  "secondPage =
     initialList\<lparr>submissions := [ann, bob, cy, baby], searchQuery := ''x.com'',
                 page := 1, pageSize := 2\<rparr>"

text \<open>The list as it starts, holding a response in the order newest first.\<close>

definition firstLoad :: list_state where
  "firstLoad = initialList\<lparr>submissions := [cy, ann, bob]\<rparr>"

definition adam :: submission where
  "adam = person 9 (JStr ''adam'') (JStr ''adam@x.com'') (JStr ''abc'') (JStr ''male'') 700"

text \<open>"Ties on the sort field are broken by id ascending."\<close>

definition tiesById :: "string \<Rightarrow> submission list \<Rightarrow> bool" where
  "tiesById field ys =
     sorted_wrt (\<lambda>a b. sortKey field a = sortKey field b \<longrightarrow> sub_id a \<le> sub_id b) ys"

text \<open>Two requests: one asking for 5000 records, one with a negative skip.\<close>

definition bigRequest :: list_options where
  "bigRequest =
     \<lparr>skip = Some 20, limit = Some 5000, sort_by = Some ''id'', order_opt = Some ''asc'',
      is_duplicate = None, query = Some ''ann''\<rparr>"

definition backwards :: list_options where
  "backwards =
     \<lparr>skip = Some (- 5), limit = Some 10, sort_by = None, order_opt = None,
      is_duplicate = None, query = None\<rparr>"

text \<open>The form filled in by a second Ann, and the form right after a submission went
  through: emptied, with the message of success on display.\<close>

definition annie :: form_state where
  "annie =
     emptyForm\<lparr>formData :=
       [''name'' \<mapsto> JStr ''Annie'', ''email'' \<mapsto> JStr ''ann@x.com'',
        ''age'' \<mapsto> JStr ''31'', ''gender'' \<mapsto> JStr ''female'']\<rparr>"

definition justSubmitted :: form_state where
  "justSubmitted = emptyForm\<lparr>submitMessage := ''Form submitted successfully!''\<rparr>"

section \<open>Strings, filter and sort: the facts the claims rest on\<close>








lemma filterE_Inl: "filterE f xs = Inl e \<Longrightarrow> \<exists>x \<in> set xs. f x = Inl e"
  by (induction xs) (auto split: sum.splits)

lemma insertWith_mset: "insertWith c x ys = Inr zs \<Longrightarrow> mset zs = add_mset x (mset ys)"
  by (induction ys arbitrary: zs) (auto split: sum.splits if_splits)

lemma sortWith_mset: "sortWith c xs = Inr ys \<Longrightarrow> mset ys = mset xs"
  by (induction xs arbitrary: ys) (auto split: sum.splits dest: insertWith_mset)


lemma compareValues_eq0: "compareValues a b ord = 0 \<longleftrightarrow> a = b"
  by (auto simp: compareValues_def)



lemma insertWith_ok:
  assumes "keyed c ok k ord" "insertWith c x ys = Inr zs" "ys \<noteq> []"
  shows "ok x \<and> (\<exists>y \<in> set ys. ok y)"
  using assms(2,3)
  by (cases ys) (use assms(1) in \<open>auto simp: keyed_def split: sum.splits if_splits\<close>)



lemma insertWith_stable:
  assumes "keyed c ok k ord" "insertWith c x ys = Inr zs"
  shows "filter (\<lambda>r. k r = v) zs = filter (\<lambda>r. k r = v) (x # ys)"
  using assms(2)
proof (induction ys arbitrary: zs)
  case Nil
  then show ?case by auto
next
  case (Cons y ys)
  show ?case
  proof (cases "c x y")
    case (Inl e)
    with Cons.prems show ?thesis by simp
  next
    case (Inr r)
    then have r: "r = compareValues (k x) (k y) ord"
      using assms(1) by (auto simp: keyed_def split: if_splits)
    show ?thesis
    proof (cases "r \<le> 0")
      case True
      with Inr Cons.prems show ?thesis by auto
    next
      case False
      then have ne: "k x \<noteq> k y"
        by (auto simp: r compareValues_def)
      from False Inr Cons.prems(1) obtain ws where ws: "insertWith c x ys = Inr ws" "zs = y # ws"
        by (auto split: sum.splits)
      with Cons.IH have "filter (\<lambda>r. k r = v) ws = filter (\<lambda>r. k r = v) (x # ys)" by simp
      with ws(2) ne show ?thesis by auto
    qed
  qed
qed

lemma sortWith_stable:
  assumes "keyed c ok k ord" "sortWith c xs = Inr ys"
  shows "filter (\<lambda>r. k r = v) ys = filter (\<lambda>r. k r = v) xs"
  using assms(2)
proof (induction xs arbitrary: ys)
  case Nil
  then show ?case by simp
next
  case (Cons x xs)
  then obtain ws where ws: "sortWith c xs = Inr ws" "insertWith c x ws = Inr ys"
    by (auto split: sum.splits)
  from insertWith_stable [OF assms(1) ws(2)] Cons.IH [OF ws(1)] show ?case by simp
qed

lemma sortWith_ok:
  assumes "keyed c ok k ord" "sortWith c xs = Inr ys" "2 \<le> length xs"
  shows "\<forall>x \<in> set xs. ok x"
  using assms(2,3)
proof (induction xs arbitrary: ys)
  case Nil
  then show ?case by simp
next
  case (Cons x xs)
  then obtain ws where ws: "sortWith c xs = Inr ws" "insertWith c x ws = Inr ys"
    by (auto split: sum.splits)
  have len: "length ws = length xs"
    using sortWith_mset [OF ws(1)] by (metis size_mset)
  with Cons.prems(2) have ne: "ws \<noteq> []" by auto
  from insertWith_ok [OF assms(1) ws(2) ne] have okx: "ok x" by simp
  show ?case
  proof (cases "2 \<le> length xs")
    case True
    with Cons.IH ws(1) okx show ?thesis by simp
  next
    case False
    with Cons.prems(2) have "length xs = 1" by simp
    then obtain y where xs: "xs = [y]" by (cases xs) auto
    with ws(1) have "ws = [y]" by simp
    with insertWith_ok [OF assms(1) ws(2) ne] xs okx show ?thesis by simp
  qed
qed

section \<open>The comparator, the sort and the page\<close>

lemma lowerOrEmpty_coerced: "stringOrFalsy v \<Longrightarrow> lowerOrEmpty v = Inr (coercedText v)"
  by (cases v) (auto simp: lowerOrEmpty_def coercedText_def stringOrFalsy_def toLowerCase_def)

lemma lowerOrEmpty_throws: "\<not> stringOrFalsy v \<Longrightarrow> lowerOrEmpty v = Inl TypeError"
  by (cases v) (auto simp: lowerOrEmpty_def stringOrFalsy_def)

lemma intOrZero_coerced: "intOrZero v = coercedAge v"
  by (simp add: intOrZero_def coercedAge_def split: option.splits)

lemma compareValues_text: "compareValues (a, s) (a, t) order = compareValues s t order"
  by (simp add: compareValues_def)

lemma compareValues_number: "compareValues (a, s) (b, s) order = compareValues a b order"
  by (simp add: compareValues_def)

lemma compareStrings_keyed:
  "compareStrings (lowerOrEmpty v) (lowerOrEmpty w) order =
     (if stringOrFalsy v \<and> stringOrFalsy w
      then Inr (compareValues (coercedText v) (coercedText w) order) else Inl TypeError)"
proof (cases "stringOrFalsy v")
  case True
  then show ?thesis
    by (cases "stringOrFalsy w")
       (simp_all add: compareStrings_def lowerOrEmpty_coerced lowerOrEmpty_throws)
next
  case False
  then show ?thesis by (simp add: compareStrings_def lowerOrEmpty_throws)
qed

lemma comparator_keyed: "keyed (comparator field order) (keyReadable field) (sortKey field) order"
  unfolding keyed_def
proof (intro allI)
  fix a b
  consider (name) "field = ''name''" | (email) "field = ''email''" | (gender) "field = ''gender''"
    | (other) "\<not> isTextField field"
    by (auto simp: isTextField_def)
  then show "comparator field order a b =
      (if keyReadable field a \<and> keyReadable field b
       then Inr (compareValues (sortKey field a) (sortKey field b) order) else Inl TypeError)"
  proof cases
    case name
    then show ?thesis
      by (simp add: comparator_def keyReadable_def sortKey_def isTextField_def textField_def
          compareStrings_keyed compareValues_text Let_def)
  next
    case email
    then show ?thesis
      by (simp add: comparator_def keyReadable_def sortKey_def isTextField_def textField_def
          compareStrings_keyed compareValues_text Let_def)
  next
    case gender
    then show ?thesis
      by (simp add: comparator_def keyReadable_def sortKey_def isTextField_def textField_def
          compareStrings_keyed compareValues_text Let_def)
  next
    case other
    then show ?thesis
      by (simp add: comparator_def keyReadable_def sortKey_def isTextField_def
          intOrZero_coerced compareValues_number Let_def)
  qed
qed



lemma sortSubmissions_mset: "sortSubmissions field order xs = Inr ys \<Longrightarrow> mset ys = mset xs"
  unfolding sortSubmissions_def by (rule sortWith_mset)


lemma sortSubmissions_stable:
  "sortSubmissions field order xs = Inr ys \<Longrightarrow>
   filter (\<lambda>r. sortKey field r = v) ys = filter (\<lambda>r. sortKey field r = v) xs"
  unfolding sortSubmissions_def using sortWith_stable [OF comparator_keyed] by blast

lemma sortSubmissions_readable:
  "sortSubmissions field order xs = Inr ys \<Longrightarrow> 2 \<le> length xs \<Longrightarrow> \<forall>r \<in> set xs. keyReadable field r"
  unfolding sortSubmissions_def using sortWith_ok [OF comparator_keyed] by blast

lemma sortSubmissions_short:
  "length xs < 2 \<Longrightarrow> sortSubmissions field order xs = Inr xs"
proof (cases xs)
  case Nil
  then show ?thesis by (simp add: sortSubmissions_def)
next
  case (Cons x rest)
  assume "length xs < 2"
  with Cons have "rest = []" by simp
  with Cons show ?thesis by (simp add: sortSubmissions_def)
qed




lemma applyFilters_Inr:
  assumes "applyFilters st = Inr st'"
  obtains matching ordered where
    "searchFilter (searchQuery st) (submissions st) = Inr matching"
    "sortSubmissions (sortBy st) (sortOrder st) matching = Inr ordered"
    "st' = st\<lparr>filteredSubmissions :=
               slice ordered (page st * pageSize st) (page st * pageSize st + pageSize st),
             total := length ordered\<rparr>"
  using assms by (auto simp: applyFilters_def Let_def split: sum.splits)


section \<open>Search\<close>









section \<open>The e-mail that already exists\<close>

lemma uniqInto_set: "set (uniqInto seen xs) = set seen \<union> set xs"
  by (induction xs arbitrary: seen) auto

lemma uniqInto_distinct: "distinct seen \<Longrightarrow> distinct (uniqInto seen xs)"
  by (induction xs arbitrary: seen) auto

lemma loaded_emails:
  assumes "\<forall>s \<in> set response. form_data s \<noteq> None"
  shows "set (existingEmails (loadExistingEmails response st)) =
         {v. truthy v \<and> (\<exists>s \<in> set response. email (dataOf s) = v)}"
  using assms by (auto simp: loadExistingEmails_def uniqInto_set)

lemma EmailExists_reported:
  "EmailExists \<in> set (fieldErrors pf existing f cfg v) \<longleftrightarrow>
     ftype cfg = ''email'' \<and> \<not> isEmpty v \<and> v \<in> set existing"
  by (auto simp: fieldErrors_def emailErrors_def stringErrors_def numberErrors_def
      dropdownErrors_def Let_def split: option.splits if_splits)

text \<open>
  C2 (as the code has it). The form keeps the distinct truthy e-mails of the submissions
  loaded, as they are written. The check for an existing e-mail is an exact match: a
  field is reported as already existing exactly when it is an e-mail field whose value is
  not empty and is identical, letter for letter, to the e-mail of a loaded submission.
\<close>

theorem existing_email_exact_match:
  assumes "\<forall>s \<in> set response. form_data s \<noteq> None"
  shows "distinct (existingEmails (loadExistingEmails response st)) \<and>
         (EmailExists \<in> set (fieldErrors pf (existingEmails (loadExistingEmails response st)) f cfg v)
          \<longleftrightarrow> ftype cfg = ''email'' \<and> \<not> isEmpty v \<and> truthy v \<and>
               (\<exists>s \<in> set response. email (dataOf s) = v))"
proof -
  have "distinct (existingEmails (loadExistingEmails response st))"
    using assms by (auto simp: loadExistingEmails_def uniqInto_distinct)
  then show ?thesis
    by (simp add: EmailExists_reported loaded_emails [OF assms])
qed

theorem existing_email_exact_match_witness:
  "form_data ann \<noteq> None \<and> form_data bob \<noteq> None \<and>
   existingEmails (loadExistingEmails [ann, bob] emptyForm) = [JStr ''Ann@X.com'', JStr ''bob@x.com''] \<and>
   EmailExists \<in> set (fieldErrors readNumber [JStr ''Ann@X.com'', JStr ''bob@x.com''] ''email''
                        emailField (JStr ''bob@x.com'')) \<and>
   email (dataOf bob) = JStr ''bob@x.com''"
proof -
  have p: "\<forall>s \<in> set [ann, bob]. form_data s \<noteq> None" by code_simp
  have l: "existingEmails (loadExistingEmails [ann, bob] emptyForm) =
      [JStr ''Ann@X.com'', JStr ''bob@x.com'']"
    by code_simp
  have e: "ftype emailField = ''email'' \<and> \<not> isEmpty (JStr ''bob@x.com'') \<and>
      truthy (JStr ''bob@x.com'') \<and> email (dataOf bob) = JStr ''bob@x.com''"
    by code_simp
  then have "\<exists>s \<in> set [ann, bob]. email (dataOf s) = JStr ''bob@x.com''" by simp
  with existing_email_exact_match [OF p, of emptyForm readNumber "''email''" emailField
      "JStr ''bob@x.com''"] l e
  have "EmailExists \<in> set (fieldErrors readNumber [JStr ''Ann@X.com'', JStr ''bob@x.com'']
          ''email'' emailField (JStr ''bob@x.com''))"
    by simp
  moreover have "form_data ann \<noteq> None \<and> form_data bob \<noteq> None" using p by simp
  ultimately show ?thesis using l e by blast
qed

theorem email_case_counterexample:
  "sameIdentity ''Ann@X.com'' ''ann@x.com'' \<and>
   existingEmails (loadExistingEmails [ann, bob] annie) =
     [JStr ''Ann@X.com'', JStr ''bob@x.com''] \<and>
   valueOf (formData annie) ''email'' = JStr ''ann@x.com'' \<and>
   fieldErrors readNumber [JStr ''Ann@X.com'', JStr ''bob@x.com''] ''email'' emailField
     (JStr ''ann@x.com'') = [] \<and>
   errors (fst (handleSubmit readNumber formSchema (loadExistingEmails [ann, bob] annie))) = [] \<and>
   \<not> Option.is_none (snd (handleSubmit readNumber formSchema (loadExistingEmails [ann, bob] annie)))"
  by code_simp

section \<open>The default order\<close>






lemma subseq_filter_sublist: "sublist ys xs \<Longrightarrow> subseq (filter P ys) xs"
  by (meson sublist_imp_subseq subseq_filter_left subseq_order.order_trans)







section \<open>The page is cut from the filtered list\<close>





section \<open>Query parameters\<close>

lemma getSubmissions_limit:
  "map_of (getSubmissions opts) ''limit'' = Some (JNum (min (orDefault (limit opts) 50) 1000))"
  by (simp add: getSubmissions_def)

lemma getSubmissions_skip:
  "map_of (getSubmissions opts) ''skip'' = Some (JNum (orDefault (skip opts) 0))"
  by (simp add: getSubmissions_def)

lemma searchSubmissions_limit:
  "map_of (searchSubmissions opts) ''limit'' = Some (JNum (min (orDefault (limit opts) 50) 1000))"
  by (simp add: searchSubmissions_def appendIfSet_def split: option.splits)

lemma searchSubmissions_skip:
  "map_of (searchSubmissions opts) ''skip'' = Some (JNum (orDefault (skip opts) 0))"
  by (simp add: searchSubmissions_def appendIfSet_def split: option.splits)

lemma orDefault_zero: "orDefault v 0 = (case v of None \<Rightarrow> 0 | Some s \<Rightarrow> s)"
  by (simp add: orDefault_def split: option.splits)

text \<open>
  C5 (as the code has it). The list and the search request send the limit
  \<open>min (limit || 50) 1000\<close>: never above 1000, 1000 for any requested limit above 1000, the
  requested limit when it is at most 1000 and not 0, and 50 when none is given. The skip is
  sent as requested, 0 when none is given; a skip below 0 is not clamped.
\<close>

theorem limit_clamped_skip_forwarded:
  "(\<exists>l. map_of (getSubmissions opts) ''limit'' = Some (JNum l) \<and>
        map_of (searchSubmissions opts) ''limit'' = Some (JNum l) \<and> l \<le> 1000 \<and>
        (limit opts = Some n \<and> 1000 < n \<longrightarrow> l = 1000) \<and>
        (limit opts = Some n \<and> n \<noteq> 0 \<and> n \<le> 1000 \<longrightarrow> l = n) \<and>
        (limit opts = None \<or> limit opts = Some 0 \<longrightarrow> l = 50)) \<and>
   map_of (getSubmissions opts) ''skip'' = Some (JNum (case skip opts of None \<Rightarrow> 0 | Some s \<Rightarrow> s)) \<and>
   map_of (searchSubmissions opts) ''skip'' = Some (JNum (case skip opts of None \<Rightarrow> 0 | Some s \<Rightarrow> s))"
proof (intro conjI)
  let ?l = "min (orDefault (limit opts) 50) 1000"
  have "?l \<le> 1000" by simp
  moreover have "limit opts = Some n \<and> 1000 < n \<longrightarrow> ?l = 1000"
    by (simp add: orDefault_def)
  moreover have "limit opts = Some n \<and> n \<noteq> 0 \<and> n \<le> 1000 \<longrightarrow> ?l = n"
    by (simp add: orDefault_def)
  moreover have "limit opts = None \<or> limit opts = Some 0 \<longrightarrow> ?l = 50"
    by (auto simp: orDefault_def)
  ultimately show "\<exists>l. map_of (getSubmissions opts) ''limit'' = Some (JNum l) \<and>
        map_of (searchSubmissions opts) ''limit'' = Some (JNum l) \<and> l \<le> 1000 \<and>
        (limit opts = Some n \<and> 1000 < n \<longrightarrow> l = 1000) \<and>
        (limit opts = Some n \<and> n \<noteq> 0 \<and> n \<le> 1000 \<longrightarrow> l = n) \<and>
        (limit opts = None \<or> limit opts = Some 0 \<longrightarrow> l = 50)"
    using getSubmissions_limit [of opts] searchSubmissions_limit [of opts] by blast
  show "map_of (getSubmissions opts) ''skip'' = Some (JNum (case skip opts of None \<Rightarrow> 0 | Some s \<Rightarrow> s))"
    by (simp add: getSubmissions_skip orDefault_zero)
  show "map_of (searchSubmissions opts) ''skip'' = Some (JNum (case skip opts of None \<Rightarrow> 0 | Some s \<Rightarrow> s))"
    by (simp add: searchSubmissions_skip orDefault_zero)
qed

theorem limit_clamped_skip_forwarded_witness:
  "limit bigRequest = Some 5000 \<and> (1000::int) < 5000 \<and>
   map_of (getSubmissions bigRequest) ''limit'' = Some (JNum 1000) \<and>
   map_of (searchSubmissions bigRequest) ''limit'' = Some (JNum 1000) \<and>
   map_of (getSubmissions bigRequest) ''skip'' = Some (JNum 20) \<and>
   map_of (searchSubmissions bigRequest) ''skip'' = Some (JNum 20)"
proof -
  have l: "limit bigRequest = Some 5000" and s: "skip bigRequest = Some 20"
    by (simp_all add: bigRequest_def)
  from limit_clamped_skip_forwarded [of bigRequest 5000] l s
  show ?thesis by auto
qed

theorem skip_clamp_counterexample:
  "skip backwards = Some (- 5) \<and>
   map_of (getSubmissions backwards) ''skip'' = Some (JNum (- 5)) \<and>
   map_of (searchSubmissions backwards) ''skip'' = Some (JNum (- 5))"
  by code_simp

section \<open>Ties in the sort\<close>

lemma comparator_tie:
  assumes "keyReadable field a" "keyReadable field r"
  shows "comparator field order a r = Inr 0 \<longleftrightarrow> sortKey field r = sortKey field a"
  using comparator_keyed [of field order] assms
  by (auto simp: keyed_def compareValues_eq0)

lemma comparator_unreadable: "\<not> keyReadable field a \<Longrightarrow> comparator field order a r \<noteq> Inr 0"
  using comparator_keyed [of field order] by (simp add: keyed_def)

lemma sortSubmissions_ties:
  assumes "sortSubmissions field order xs = Inr ys"
  shows "filter (\<lambda>r. comparator field order a r = Inr 0) ys =
         filter (\<lambda>r. comparator field order a r = Inr 0) xs"
proof (cases "length xs < 2")
  case True
  with assms show ?thesis by (simp add: sortSubmissions_short)
next
  case False
  then have rd: "\<forall>r \<in> set xs. keyReadable field r"
    using sortSubmissions_readable [OF assms] by simp
  have set_eq: "set ys = set xs"
    using sortSubmissions_mset [OF assms] by (rule mset_eq_setD)
  show ?thesis
  proof (cases "keyReadable field a")
    case True
    have "filter (\<lambda>r. comparator field order a r = Inr 0) ys =
          filter (\<lambda>r. sortKey field r = sortKey field a) ys"
      using rd set_eq True by (intro filter_cong) (simp_all add: comparator_tie)
    also have "\<dots> = filter (\<lambda>r. sortKey field r = sortKey field a) xs"
      using assms by (rule sortSubmissions_stable)
    also have "\<dots> = filter (\<lambda>r. comparator field order a r = Inr 0) xs"
      using rd True by (intro filter_cong) (simp_all add: comparator_tie)
    finally show ?thesis .
  next
    case False
    then show ?thesis by (simp add: comparator_unreadable)
  qed
qed

lemma applyFilters_inputs:
  assumes "submissions s1 = submissions s2" "searchQuery s1 = searchQuery s2"
    "sortBy s1 = sortBy s2" "sortOrder s1 = sortOrder s2" "page s1 = page s2"
    "pageSize s1 = pageSize s2"
  shows "shown (applyFilters s1) = shown (applyFilters s2)"
  using assms by (simp add: applyFilters_def shown_def Let_def split: sum.splits)

text \<open>
  C6 (as the code has it). Two runs of the effect on the same list of records, search text,
  sort field, sort order, page and page size show the same page and total, whatever else
  the state holds. Records that tie on the sort field (the comparator returns 0) keep the
  order in which the list holds them: the sort is stable and has no tie-break by id.
\<close>

theorem ties_keep_arrival_order:
  "(submissions s1 = submissions s2 \<and> searchQuery s1 = searchQuery s2 \<and>
    sortBy s1 = sortBy s2 \<and> sortOrder s1 = sortOrder s2 \<and> page s1 = page s2 \<and>
    pageSize s1 = pageSize s2 \<longrightarrow> shown (applyFilters s1) = shown (applyFilters s2)) \<and>
   (sortSubmissions field order xs = Inr ys \<longrightarrow>
      filter (\<lambda>r. comparator field order a r = Inr 0) ys =
      filter (\<lambda>r. comparator field order a r = Inr 0) xs)"
  using applyFilters_inputs sortSubmissions_ties by blast

theorem ties_keep_arrival_order_witness:
  "shown (applyFilters firstLoad) = shown (applyFilters (firstLoad\<lparr>total := 7\<rparr>)) \<and>
   sortSubmissions ''gender'' ''asc'' [bob, cy, adam, ann] = Inr [cy, ann, bob, adam] \<and>
   filter (\<lambda>r. comparator ''gender'' ''asc'' bob r = Inr 0) [cy, ann, bob, adam] = [bob, adam] \<and>
   filter (\<lambda>r. comparator ''gender'' ''asc'' bob r = Inr 0) [bob, cy, adam, ann] = [bob, adam]"
proof -
  have h: "sortSubmissions ''gender'' ''asc'' [bob, cy, adam, ann] = Inr [cy, ann, bob, adam]"
    by code_simp
  have f: "filter (\<lambda>r. comparator ''gender'' ''asc'' bob r = Inr 0) [bob, cy, adam, ann] = [bob, adam]"
    by code_simp
  from ties_keep_arrival_order [of firstLoad "firstLoad\<lparr>total := 7\<rparr>" "''gender''" "''asc''"
      "[bob, cy, adam, ann]" "[cy, ann, bob, adam]" bob] h f
  show ?thesis by simp
qed

theorem ties_by_id_counterexample:
  "mset [bob, ann] = mset [ann, bob] \<and>
   sortSubmissions ''submitted_at'' ''asc'' [ann, bob] = Inr [ann, bob] \<and>
   sortSubmissions ''submitted_at'' ''asc'' [bob, ann] = Inr [bob, ann] \<and>
   \<not> tiesById ''submitted_at'' [bob, ann]"
  by code_simp

section \<open>The coerced sort keys\<close>







section \<open>The last page and the page after it\<close>

lemma applyFilters_page:
  assumes "applyFilters st = Inr st'"
  shows "\<exists>ordered. length ordered = total st' \<and>
           (\<forall>p n. applyFilters (st\<lparr>page := p, pageSize := n\<rparr>) =
              Inr (st\<lparr>page := p, pageSize := n,
                       filteredSubmissions := slice ordered (p * n) (p * n + n),
                       total := length ordered\<rparr>))"
proof -
  from assms obtain matching ordered where
    m: "searchFilter (searchQuery st) (submissions st) = Inr matching" and
    s: "sortSubmissions (sortBy st) (sortOrder st) matching = Inr ordered" and
    st': "st' = st\<lparr>filteredSubmissions :=
               slice ordered (page st * pageSize st) (page st * pageSize st + pageSize st),
             total := length ordered\<rparr>"
    by (rule applyFilters_Inr)
  have "length ordered = total st'" by (simp add: st')
  moreover have "\<forall>p n. applyFilters (st\<lparr>page := p, pageSize := n\<rparr>) =
        Inr (st\<lparr>page := p, pageSize := n,
                 filteredSubmissions := slice ordered (p * n) (p * n + n),
                 total := length ordered\<rparr>)"
    using m s by (simp add: applyFilters_def Let_def)
  ultimately show ?thesis by blast
qed

lemma slice_last_one:
  assumes "1 \<le> length xs" "1 \<le> n"
  shows "length (slice xs (int (length xs) - 1) (int (length xs) - 1 + n)) = 1"
proof -
  have k: "sliceIndex (length xs) (int (length xs) - 1) = length xs - 1"
    using assms(1) by (simp add: sliceIndex_def nat_diff_distrib')
  have "length xs \<le> nat (int (length xs) - 1 + n)"
    using assms by linarith
  then have f: "sliceIndex (length xs) (int (length xs) - 1 + n) = length xs"
    using assms by (simp add: sliceIndex_def)
  show ?thesis
    using assms(1) by (simp add: slice_def Let_def k f)
qed

lemma slice_past_end: "slice xs (int (length xs)) b = []"
  by (simp add: slice_def sliceIndex_def Let_def)

text \<open>
  C8. Over a result set of \<open>total\<close> records (the total any page of it reports), the page at
  offset \<open>total - 1\<close> with a limit of at least 1 holds exactly one record, and the page at
  offset \<open>total\<close> holds none; both report the same total. The offset is
  \<open>page * pageSize\<close> and the limit \<open>pageSize\<close>.
\<close>

theorem pagination_boundary:
  assumes "applyFilters st = Inr st'"
  shows "(1 \<le> total st' \<and> 1 \<le> n \<and> p * n = int (total st') - 1 \<longrightarrow>
           (\<exists>s. applyFilters (st\<lparr>page := p, pageSize := n\<rparr>) = Inr s \<and>
                length (filteredSubmissions s) = 1 \<and> total s = total st')) \<and>
         (p * n = int (total st') \<longrightarrow>
           (\<exists>s. applyFilters (st\<lparr>page := p, pageSize := n\<rparr>) = Inr s \<and>
                filteredSubmissions s = [] \<and> total s = total st'))"
proof -
  from applyFilters_page [OF assms] obtain ordered where
    len: "length ordered = total st'" and
    run: "\<And>p n. applyFilters (st\<lparr>page := p, pageSize := n\<rparr>) =
        Inr (st\<lparr>page := p, pageSize := n,
                 filteredSubmissions := slice ordered (p * n) (p * n + n),
                 total := length ordered\<rparr>)"
    by blast
  have r: "applyFilters (st\<lparr>page := p, pageSize := n\<rparr>) =
        Inr (st\<lparr>page := p, pageSize := n,
                 filteredSubmissions := slice ordered (p * n) (p * n + n),
                 total := length ordered\<rparr>)"
    by (rule run)
  show ?thesis
  proof (intro conjI impI)
    assume a: "1 \<le> total st' \<and> 1 \<le> n \<and> p * n = int (total st') - 1"
    then have "length (slice ordered (p * n) (p * n + n)) = 1"
      using slice_last_one [of ordered n] len by simp
    with r len
    show "\<exists>s. applyFilters (st\<lparr>page := p, pageSize := n\<rparr>) = Inr s \<and>
                length (filteredSubmissions s) = 1 \<and> total s = total st'"
      by simp
  next
    assume "p * n = int (total st')"
    then have "slice ordered (p * n) (p * n + n) = []"
      using slice_past_end [of ordered] len by simp
    with r len
    show "\<exists>s. applyFilters (st\<lparr>page := p, pageSize := n\<rparr>) = Inr s \<and>
                filteredSubmissions s = [] \<and> total s = total st'"
      by simp
  qed
qed


theorem pagination_boundary_witness:
  "applyFilters secondPage = Inr (secondPage\<lparr>filteredSubmissions := [bob], total := 3\<rparr>) \<and>
   shown (applyFilters (secondPage\<lparr>page := 1, pageSize := 2\<rparr>)) = Inr ([bob], 3) \<and>
   shown (applyFilters (secondPage\<lparr>page := 1, pageSize := 3\<rparr>)) = Inr ([], 3)"
proof -
  have h: "applyFilters secondPage = Inr (secondPage\<lparr>filteredSubmissions := [bob], total := 3\<rparr>)"
    by code_simp
  have a: "shown (applyFilters (secondPage\<lparr>page := 1, pageSize := 2\<rparr>)) = Inr ([bob], 3)"
    by code_simp
  have b: "shown (applyFilters (secondPage\<lparr>page := 1, pageSize := 3\<rparr>)) = Inr ([], 3)"
    by code_simp
  from pagination_boundary [OF h, of 2 1] pagination_boundary [OF h, of 3 1] h a b
  show ?thesis by simp
qed


section \<open>Required fields\<close>

lemma fieldErrors_empty:
  "isEmpty v \<Longrightarrow> fieldErrors pf ex f cfg v = (if required cfg then [Required f] else [])"
  by (simp add: fieldErrors_def)

lemma checkField_keeps:
  assumes "isEmpty (valueOf (formData st) f)" "map_of acc f = Some [Required f]"
  shows "map_of (checkField pf st acc entry) f = Some [Required f]"
proof (cases "fst entry = f")
  case True
  with assms show ?thesis
    by (simp add: checkField_def Let_def fieldErrors_empty AList.update_conv')
next
  case False
  with assms(2) show ?thesis
    by (simp add: checkField_def Let_def AList.update_conv')
qed

lemma foldl_checkField_keeps:
  assumes "isEmpty (valueOf (formData st) f)"
  shows "map_of acc f = Some [Required f] \<Longrightarrow>
         map_of (foldl (checkField pf st) acc schema) f = Some [Required f]"
proof (induction schema arbitrary: acc)
  case Nil
  then show ?case by simp
next
  case (Cons entry rest)
  from checkField_keeps [OF assms Cons.prems]
  have "map_of (checkField pf st acc entry) f = Some [Required f]" .
  then show ?case using Cons.IH by simp
qed

lemma checkField_records:
  assumes "isEmpty (valueOf (formData st) f)" "required cfg"
  shows "map_of (checkField pf st acc (f, cfg)) f = Some [Required f]"
  using assms by (simp add: checkField_def Let_def fieldErrors_empty AList.update_conv')

lemma foldl_checkField_records:
  assumes "isEmpty (valueOf (formData st) f)" "required cfg"
  shows "(f, cfg) \<in> set schema \<Longrightarrow>
         map_of (foldl (checkField pf st) acc schema) f = Some [Required f]"
proof (induction schema arbitrary: acc)
  case Nil
  then show ?case by simp
next
  case (Cons entry rest)
  show ?case
  proof (cases "entry = (f, cfg)")
    case True
    have "map_of (checkField pf st acc (f, cfg)) f = Some [Required f]"
      using assms by (rule checkField_records)
    with True show ?thesis
      using foldl_checkField_keeps [OF assms(1)] by simp
  next
    case False
    with Cons.prems have "(f, cfg) \<in> set rest" by simp
    then show ?thesis using Cons.IH by simp
  qed
qed

lemma checkField_cleared:
  "checkField pf (st\<lparr>submitMessage := m, submitError := e\<rparr>) = checkField pf st"
  by (simp add: checkField_def fun_eq_iff)

lemma validateForm_cleared:
  "validateForm pf schema (st\<lparr>submitMessage := m, submitError := e\<rparr>) =
     ((fst (validateForm pf schema st))\<lparr>submitMessage := m, submitError := e\<rparr>,
      snd (validateForm pf schema st))"
  by (simp add: validateForm_def Let_def checkField_cleared)

text \<open>
  C9 (as the code has it). When a field of the schema is required and its value is empty
  (the empty string, \<open>null\<close> or \<open>undefined\<close>), \<open>validateForm\<close> records the error
  "required" for that field and returns false, and \<open>handleSubmit\<close> makes no request. The
  form data, the loading flag and the e-mails on record stay as they were; the errors are
  replaced by the new ones, and the two messages of the last submission are cleared.
\<close>

theorem required_empty_blocks_submit:
  assumes "(f, cfg) \<in> set schema" "required cfg" "isEmpty (valueOf (formData st) f)"
  shows "\<not> snd (validateForm pf schema st) \<and>
         map_of (errors (fst (validateForm pf schema st))) f = Some [Required f] \<and>
         snd (handleSubmit pf schema st) = None \<and>
         fst (handleSubmit pf schema st) =
           st\<lparr>errors := errors (fst (validateForm pf schema st)),
               submitMessage := [], submitError := []\<rparr>"
proof -
  let ?new = "foldl (checkField pf st) [] schema"
  have rec: "map_of ?new f = Some [Required f]"
    using assms(3,2,1) by (rule foldl_checkField_records)
  then have ne: "?new \<noteq> []" by auto
  have v: "validateForm pf schema st = (st\<lparr>errors := ?new\<rparr>, False)"
    using ne by (simp add: validateForm_def Let_def)
  have h: "handleSubmit pf schema st = (st\<lparr>errors := ?new, submitMessage := [], submitError := []\<rparr>, None)"
    by (simp add: handleSubmit_def Let_def validateForm_cleared v)
  from rec v h show ?thesis by simp
qed

theorem required_empty_blocks_submit_witness:
  "(''email'', emailField) \<in> set formSchema \<and> required emailField \<and>
   isEmpty (valueOf (formData justSubmitted) ''email'') \<and>
   \<not> snd (validateForm readNumber formSchema justSubmitted) \<and>
   map_of (errors (fst (validateForm readNumber formSchema justSubmitted))) ''email'' =
     Some [Required ''email''] \<and>
   snd (handleSubmit readNumber formSchema justSubmitted) = None"
proof -
  have a: "(''email'', emailField) \<in> set formSchema" by code_simp
  have b: "required emailField" by code_simp
  have c: "isEmpty (valueOf (formData justSubmitted) ''email'')" by code_simp
  from required_empty_blocks_submit [OF a b c, of readNumber] a b c
  show ?thesis by blast
qed

theorem state_changes_counterexample:
  "(''email'', emailField) \<in> set formSchema \<and> required emailField \<and>
   isEmpty (valueOf (formData justSubmitted) ''email'') \<and>
   submitMessage justSubmitted = ''Form submitted successfully!'' \<and>
   submitMessage (fst (handleSubmit readNumber formSchema justSubmitted)) = [] \<and>
   errors justSubmitted = [] \<and>
   errors (fst (handleSubmit readNumber formSchema justSubmitted)) =
     [(''name'', [Required ''name'']), (''email'', [Required ''email'']),
      (''age'', [Required ''age'']), (''gender'', [Required ''gender''])]"
  by code_simp

section \<open>Malformed records\<close>

















end
